theory Spec2Isabelle
  imports
    Main
    "HOL-Library.Char_ord"
    "HOL-Library.List_Lexorder"
    "HOL-Library.AList"
begin

section \<open>Python strings\<close>

text \<open>
  A Python \<open>str\<close> is modelled by its UTF-8 encoding, a \<^typ>\<open>string\<close>: one \<^typ>\<open>char\<close> is one
  byte. Splitting on \<open>"/"\<close>, stripping \<open>"/"\<close>, equality and concatenation act on the bytes as
  they act on the code points, and the lexicographic order of the bytes (\<open>Char_ord\<close>,
  \<open>List_Lexorder\<close>) is the order of the code points, which is the order \<open>sorted\<close> uses on
  \<open>str\<close>. Only the whitespace of \<open>str.split()\<close> and the line boundaries of
  \<open>str.splitlines()\<close> contain code points of more than one byte; they are listed below.
\<close>

text \<open>\<open>s.strip(chars)\<close>: drop the leading and the trailing characters that are in \<open>chars\<close>.\<close>

definition py_strip :: "string \<Rightarrow> string \<Rightarrow> string" where
  "py_strip chars s =
     rev (dropWhile (\<lambda>c. c \<in> set chars) (rev (dropWhile (\<lambda>c. c \<in> set chars) s)))"

text \<open>\<open>s.split(sep)\<close> for a separator of one character: never empty, \<open>"".split("/") = [""]\<close>.\<close>

fun split_sep :: "char \<Rightarrow> string \<Rightarrow> string list" where
  "split_sep sep [] = [[]]"
| "split_sep sep (c # cs) =
     (if c = sep then [] # split_sep sep cs
      else (c # hd (split_sep sep cs)) # tl (split_sep sep cs))"

text \<open>\<open>sep.join(xs)\<close>.\<close>

fun py_join :: "string \<Rightarrow> string list \<Rightarrow> string" where
  "py_join sep [] = []"
| "py_join sep [x] = x"
| "py_join sep (x # y # ys) = x @ sep @ py_join sep (y # ys)"

text \<open>
  \<open>match_head codes s\<close>: when \<open>s\<close> starts with one of the (non-empty) byte sequences of
  \<open>codes\<close>, the first such in the order of the list, the rest of \<open>s\<close> after it.
\<close>

definition match_head :: "string list \<Rightarrow> string \<Rightarrow> string option" where
  "match_head codes s =
     (case find (\<lambda>w. w \<noteq> [] \<and> take (length w) s = w) codes of
        None \<Rightarrow> None
      | Some w \<Rightarrow> Some (drop (length w) s))"

text \<open>
  The code points for which \<open>str.isspace\<close> holds, which are the separators of
  \<open>str.split()\<close>: U+0009..U+000D, U+001C..U+0020, U+0085, U+00A0, U+1680, U+2000..U+200A,
  U+2028, U+2029, U+202F, U+205F, U+3000, in UTF-8.
\<close>

definition whitespace_codes :: "string list" where
  "whitespace_codes =
     [[CHR 0x09], [CHR 0x0A], [CHR 0x0B], [CHR 0x0C], [CHR 0x0D],
      [CHR 0x1C], [CHR 0x1D], [CHR 0x1E], [CHR 0x1F], [CHR 0x20],
      [CHR 0xC2, CHR 0x85], [CHR 0xC2, CHR 0xA0], [CHR 0xE1, CHR 0x9A, CHR 0x80],
      [CHR 0xE2, CHR 0x80, CHR 0x80], [CHR 0xE2, CHR 0x80, CHR 0x81],
      [CHR 0xE2, CHR 0x80, CHR 0x82], [CHR 0xE2, CHR 0x80, CHR 0x83],
      [CHR 0xE2, CHR 0x80, CHR 0x84], [CHR 0xE2, CHR 0x80, CHR 0x85],
      [CHR 0xE2, CHR 0x80, CHR 0x86], [CHR 0xE2, CHR 0x80, CHR 0x87],
      [CHR 0xE2, CHR 0x80, CHR 0x88], [CHR 0xE2, CHR 0x80, CHR 0x89],
      [CHR 0xE2, CHR 0x80, CHR 0x8A], [CHR 0xE2, CHR 0x80, CHR 0xA8],
      [CHR 0xE2, CHR 0x80, CHR 0xA9], [CHR 0xE2, CHR 0x80, CHR 0xAF],
      [CHR 0xE2, CHR 0x81, CHR 0x9F], [CHR 0xE3, CHR 0x80, CHR 0x80]]"

text \<open>
  The line boundaries of \<open>str.splitlines()\<close>: \<open>\r\n\<close> (tried first), \<open>\n\<close>, \<open>\r\<close>,
  U+000B, U+000C, U+001C, U+001D, U+001E, U+0085, U+2028, U+2029.
\<close>

definition line_boundaries :: "string list" where
  "line_boundaries =
     [[CHR 0x0D, CHR 0x0A], [CHR 0x0A], [CHR 0x0D], [CHR 0x0B], [CHR 0x0C],
      [CHR 0x1C], [CHR 0x1D], [CHR 0x1E], [CHR 0xC2, CHR 0x85],
      [CHR 0xE2, CHR 0x80, CHR 0xA8], [CHR 0xE2, CHR 0x80, CHR 0xA9]]"

lemma match_head_shorter: "match_head codes s = Some r \<Longrightarrow> length r < length s"
proof -
  assume m: "match_head codes s = Some r"
  then obtain w where f: "find (\<lambda>w. w \<noteq> [] \<and> take (length w) s = w) codes = Some w"
    and r: "r = drop (length w) s"
    by (auto simp: match_head_def split: option.splits)
  from f have "w \<noteq> []" and t: "take (length w) s = w"
    by (auto simp: find_Some_iff)
  then have "s \<noteq> []" by auto
  with \<open>w \<noteq> []\<close> r show ?thesis by simp
qed

text \<open>
  \<open>s.split()\<close>: the maximal runs of characters that are not whitespace. The first argument
  is the word read so far.
\<close>

function split_ws :: "string \<Rightarrow> string \<Rightarrow> string list" where
  "split_ws w [] = (if w = [] then [] else [w])"
| "split_ws w (c # cs) =
     (case match_head whitespace_codes (c # cs) of
        Some rest \<Rightarrow> (if w = [] then [] else [w]) @ split_ws [] rest
      | None \<Rightarrow> split_ws (w @ [c]) cs)"
  by pat_completeness auto
termination
  by (relation "measure (\<lambda>(w, s). length s)") (auto dest: match_head_shorter)

definition py_split :: "string \<Rightarrow> string list" where
  "py_split s = split_ws [] s"

text \<open>
  \<open>s.splitlines()\<close>: the lines of \<open>s\<close> without their line boundaries; a boundary at the
  very end opens no further line.
\<close>

function lines_from :: "string \<Rightarrow> string \<Rightarrow> string list" where
  "lines_from w [] = (if w = [] then [] else [w])"
| "lines_from w (c # cs) =
     (case match_head line_boundaries (c # cs) of
        Some rest \<Rightarrow> w # lines_from [] rest
      | None \<Rightarrow> lines_from (w @ [c]) cs)"
  by pat_completeness auto
termination
  by (relation "measure (\<lambda>(w, s). length s)") (auto dest: match_head_shorter)

definition splitlines :: "string \<Rightarrow> string list" where
  "splitlines s = lines_from [] s"

text \<open>\<open>str(n)\<close> for a natural number: its decimal digits.\<close>

definition digit_char :: "nat \<Rightarrow> char" where
  "digit_char d = ''0123456789'' ! d"

fun str_nat :: "nat \<Rightarrow> string" where
  "str_nat n = (if n < 10 then [digit_char n] else str_nat (n div 10) @ [digit_char (n mod 10)])"

declare str_nat.simps [simp del]

section \<open>Exceptions\<close>

text \<open>
  The exceptions the program raises or meets, each with the argument it was built from.
  The last two are what a write to standard output raises: UnicodeEncodeError when the
  encoding of the stream has no code for a character of the text, BrokenPipeError (an
  OSError, but not a FileNotFoundError) when the reader of the stream has gone. All of them
  are subclasses of \<open>Exception\<close>.
\<close>

datatype exn =
    FileNotFoundError string
  | KeyError string
  | TypeError string
  | AttributeError string
  | UnicodeDecodeError string
  | UnicodeEncodeError string
  | BrokenPipeError string

definition is_FileNotFoundError :: "exn \<Rightarrow> bool" where
  "is_FileNotFoundError e = (case e of FileNotFoundError m \<Rightarrow> True | _ \<Rightarrow> False)"

definition is_Exception :: "exn \<Rightarrow> bool" where
  "is_Exception e =
     (case e of FileNotFoundError m \<Rightarrow> True | KeyError k \<Rightarrow> True | TypeError m \<Rightarrow> True
      | AttributeError m \<Rightarrow> True | UnicodeDecodeError m \<Rightarrow> True
      | UnicodeEncodeError m \<Rightarrow> True | BrokenPipeError m \<Rightarrow> True)"

text \<open>The messages of the errors that operations on \<open>None\<close> raise.\<close>

definition quoted :: "string \<Rightarrow> string" where
  "quoted s = [CHR 0x27] @ s @ [CHR 0x27]"

definition NoneType_object :: "string \<Rightarrow> string" where
  "NoneType_object what = quoted ''NoneType'' @ '' object'' @ what"

section \<open>The virtual file system\<close>

text \<open>
  A value of the tree \<open>self.fs\<close>: \<open>None\<close> (a file) or a \<open>dict\<close> from names to such values
  (a folder), kept as the list of its items in insertion order.
\<close>

datatype node = File | Folder "(string \<times> node) list"

record VirtualFileSystem =
  current_dir :: string
  fs :: node
  files_content :: "(string \<times> string) list"

text \<open>
  The archive, as \<open>zipfile\<close> shows it: the entries in the order of \<open>z.namelist()\<close>, each with
  the result of \<open>z.read(name).decode('utf-8')\<close>, the text or the exception the decoding
  raises. \<open>z.read(name)\<close> reads the last entry of that name; \<open>load_zip\<close> reads only names
  of \<open>z.namelist()\<close>, so the KeyError of a name that is not in the archive never arises there.
\<close>

type_synonym zip_archive = "(string \<times> (exn + string)) list"

definition namelist :: "zip_archive \<Rightarrow> string list" where
  "namelist z = map fst z"

definition z_read_decode :: "zip_archive \<Rightarrow> string \<Rightarrow> exn + string" where
  "z_read_decode z file =
     (case map_of (rev z) file of
        None \<Rightarrow> Inl (KeyError file)
      | Some r \<Rightarrow> r)"

text \<open>
  The body of the loop of \<open>load_zip\<close> on the tree: \<open>d\<close> starts at \<open>self.fs\<close>, moves down
  by \<open>d = d.setdefault(part, {})\<close> for each part but the last, and \<open>d[parts[-1]] = None\<close>
  when the last part is not empty. \<open>d\<close> is an alias into the tree; the function returns the
  tree after the mutation. On \<open>None\<close>, \<open>setdefault\<close> raises AttributeError and the item
  assignment raises TypeError.
\<close>

fun add_entry :: "string list \<Rightarrow> string \<Rightarrow> node \<Rightarrow> exn + node" where
  "add_entry [] lst d =
     (if lst \<noteq> [] then
        (case d of
           File \<Rightarrow> Inl (TypeError (NoneType_object '' does not support item assignment''))
         | Folder kvs \<Rightarrow> Inr (Folder (AList.update lst File kvs)))
      else Inr d)"
| "add_entry (part # rest) lst d =
     (case d of
        File \<Rightarrow> Inl (AttributeError (NoneType_object ('' has no attribute '' @ quoted ''setdefault'')))
      | Folder kvs \<Rightarrow>
          (case add_entry rest lst (case map_of kvs part of None \<Rightarrow> Folder [] | Some child \<Rightarrow> child) of
             Inl e \<Rightarrow> Inl e
           | Inr child' \<Rightarrow> Inr (Folder (AList.update part child' kvs))))"

fun load_entries :: "zip_archive \<Rightarrow> string list \<Rightarrow> VirtualFileSystem \<Rightarrow> exn + VirtualFileSystem" where
  "load_entries z [] v = Inr v"
| "load_entries z (file # files) v =
     (let parts = split_sep CHR ''/'' file in
      case add_entry (butlast parts) (last parts) (fs v) of
        Inl e \<Rightarrow> Inl e
      | Inr d \<Rightarrow>
          if last parts \<noteq> [] then
            (case z_read_decode z file of
               Inl e \<Rightarrow> Inl e
             | Inr text \<Rightarrow>
                 load_entries z files
                   (v\<lparr>fs := d, files_content := AList.update file text (files_content v)\<rparr>))
          else load_entries z files (v\<lparr>fs := d\<rparr>))"

definition load_zip :: "zip_archive \<Rightarrow> VirtualFileSystem \<Rightarrow> exn + VirtualFileSystem" where
  "load_zip z v = load_entries z (namelist z) v"

text \<open>\<open>VirtualFileSystem(zip_file_path)\<close>, on the archive found at that path.\<close>

definition init_vfs :: "zip_archive \<Rightarrow> exn + VirtualFileSystem" where
  "init_vfs z = load_zip z \<lparr>current_dir = ''/'', fs = Folder [], files_content = []\<rparr>"

text \<open>
  The loop of \<open>list_dir\<close>: \<open>dirs = dirs[part]\<close> for each non-empty part. Subscripting
  \<open>None\<close> raises TypeError, a missing key raises KeyError.
\<close>

fun walk :: "node \<Rightarrow> string list \<Rightarrow> exn + node" where
  "walk dirs [] = Inr dirs"
| "walk dirs (part # parts) =
     (if part \<noteq> [] then
        (case dirs of
           File \<Rightarrow> Inl (TypeError (NoneType_object '' is not subscriptable''))
         | Folder kvs \<Rightarrow>
             (case map_of kvs part of
                None \<Rightarrow> Inl (KeyError part)
              | Some d \<Rightarrow> walk d parts))
      else walk dirs parts)"

definition is_dict :: "node option \<Rightarrow> bool" where
  "is_dict x = (case x of Some (Folder kvs) \<Rightarrow> True | _ \<Rightarrow> False)"

definition is_None :: "node option \<Rightarrow> bool" where
  "is_None x = (case x of Some File \<Rightarrow> True | _ \<Rightarrow> False)"

text \<open>
  Every \<open>dict\<close> of a tree has each key once. A Python \<open>dict\<close> always has; the list of items
  that stands for it has to be told.
\<close>

fun dict_ok :: "node \<Rightarrow> bool" where
  "dict_ok File = True"
| "dict_ok (Folder kvs) = (distinct (map fst kvs) \<and> (\<forall>n\<in>snd ` set kvs. dict_ok n))"

text \<open>
  The names at the root of a tree: none has a slash, and the name of a file is not empty.
\<close>

definition root_names_ok :: "(string \<times> node) list \<Rightarrow> bool" where
  "root_names_ok kvs =
     list_all (\<lambda>(name, n). CHR ''/'' \<notin> set name \<and> (n = File \<longrightarrow> name \<noteq> [])) kvs"

text \<open>The value of \<open>dirs\<close> after the loop of \<open>list_dir\<close>: the node the current directory names.\<close>

definition current_node :: "VirtualFileSystem \<Rightarrow> exn + node" where
  "current_node v = walk (fs v) (split_sep CHR ''/'' (py_strip ''/'' (current_dir v)))"

text \<open>
  \<open>list_dir\<close>: \<open>dirs.keys()\<close> raises AttributeError when \<open>dirs\<close> is \<open>None\<close>; \<open>sorted\<close> is
  \<^const>\<open>sort\<close> on the order of strings.
\<close>

definition list_dir :: "VirtualFileSystem \<Rightarrow> exn + string list" where
  "list_dir v =
     (case current_node v of
        Inl e \<Rightarrow> Inl e
      | Inr File \<Rightarrow> Inl (AttributeError (NoneType_object ('' has no attribute '' @ quoted ''keys'')))
      | Inr (Folder dirs) \<Rightarrow>
          Inr (sort [name \<leftarrow> map fst dirs. is_dict (map_of dirs name)]
               @ sort [name \<leftarrow> map fst dirs. is_None (map_of dirs name)]))"

text \<open>
  \<open>change_dir\<close> returns the outcome together with the object after the call, so that what
  an exception leaves behind is part of the model.
\<close>

definition change_dir :: "VirtualFileSystem \<Rightarrow> string \<Rightarrow> (exn + unit) \<times> VirtualFileSystem" where
  "change_dir v path =
     (if path = ''..'' then
        (let d = py_join ''/'' (butlast (split_sep CHR ''/'' (current_dir v)))
         in (Inr (), v\<lparr>current_dir := (if d = [] then ''/'' else d)\<rparr>))
      else
        (case list_dir v of
           Inl e \<Rightarrow> (Inl e, v)
         | Inr listing \<Rightarrow>
             if path \<in> set listing then
               (Inr (), v\<lparr>current_dir := current_dir v @ py_strip ''/'' (''/'' @ path)\<rparr>)
             else (Inl (FileNotFoundError (''No such directory: '' @ path)), v)))"

definition current_path :: "VirtualFileSystem \<Rightarrow> string" where
  "current_path v = current_dir v"

definition read_file :: "VirtualFileSystem \<Rightarrow> string \<Rightarrow> exn + string list" where
  "read_file v file_path =
     (let full_path = py_strip ''/'' (py_strip ''/'' (current_dir v) @ ''/'' @ file_path) in
      case map_of (files_content v) full_path of
        Some text \<Rightarrow> Inr (splitlines text)
      | None \<Rightarrow> Inl (FileNotFoundError (''No such file: '' @ file_path)))"

section \<open>The shell\<close>

text \<open>
  What the shell takes from the Python runtime and the clock: \<open>repr\<close> on a \<open>str\<close>, which
  is how a KeyError shows its key, and the value of
  \<open>datetime.now().strftime("%a %b %d %H:%M:%S %Y")\<close> at the moment of the call.
\<close>

record runtime =
  repr :: "string \<Rightarrow> string"
  now_strftime :: string

text \<open>\<open>str(e)\<close>.\<close>

definition str_exn :: "runtime \<Rightarrow> exn \<Rightarrow> string" where
  "str_exn rt e =
     (case e of
        FileNotFoundError m \<Rightarrow> m
      | KeyError k \<Rightarrow> repr rt k
      | TypeError m \<Rightarrow> m
      | AttributeError m \<Rightarrow> m
      | UnicodeDecodeError m \<Rightarrow> m
      | UnicodeEncodeError m \<Rightarrow> m
      | BrokenPipeError m \<Rightarrow> m)"

text \<open>
  The state the shell works on: its file system, the module-level list
  \<open>command_history\<close>, and what has been written to standard output.
\<close>

record shell_state =
  vfs :: VirtualFileSystem
  command_history :: "string list"
  stdout :: string

text \<open>
  \<open>print(*args)\<close> on strings, on a standard output that accepts what is written to it: the
  arguments joined by one space, then a newline. Up to \<open>process_command\<close> the shell is
  modelled on such an output; the section after it has the output that can refuse a write.
\<close>

definition py_print :: "string list \<Rightarrow> shell_state \<Rightarrow> shell_state" where
  "py_print args st = st\<lparr>stdout := stdout st @ py_join '' '' args @ [CHR 0x0A]\<rparr>"

definition handle_history :: "string list \<Rightarrow> shell_state \<Rightarrow> shell_state" where
  "handle_history parts st =
     fold (\<lambda>i s. py_print [str_nat (i + 1), '' '', command_history s ! i] s)
       [0..<length (command_history st)] st"

definition handle_date :: "runtime \<Rightarrow> shell_state \<Rightarrow> shell_state" where
  "handle_date rt st = py_print [now_strftime rt] st"

text \<open>The body of the \<open>try\<close> of \<open>process_command\<close>.\<close>

definition dispatch :: "runtime \<Rightarrow> shell_state \<Rightarrow> string \<Rightarrow> string list \<Rightarrow> (exn + unit) \<times> shell_state" where
  "dispatch rt st cmd parts =
     (if cmd = ''ls'' then
        (case list_dir (vfs st) of
           Inl e \<Rightarrow> (Inl e, st)
         | Inr listing \<Rightarrow> (Inr (), py_print [py_join [CHR 0x0A] listing] st))
      else if cmd = ''pwd'' then (Inr (), py_print [current_path (vfs st)] st)
      else if cmd = ''cd'' then
        (if length parts > 1 then
           (case change_dir (vfs st) (parts ! 1) of (r, v) \<Rightarrow> (r, st\<lparr>vfs := v\<rparr>))
         else (Inr (), py_print [''Usage: cd <directory>''] st))
      else if cmd = ''history'' then (Inr (), handle_history parts st)
      else if cmd = ''date'' then (Inr (), handle_date rt st)
      else (Inr (), py_print [''Command not found: '' @ cmd] st))"

text \<open>
  \<open>process_command\<close>: the two \<open>except\<close> clauses in their order. The result is the
  exception that leaves the function, if any, and the state after the call.
\<close>

definition process_command :: "runtime \<Rightarrow> shell_state \<Rightarrow> string \<Rightarrow> (exn + unit) \<times> shell_state" where
  "process_command rt st command =
     (let parts = py_split command;
          st1 = st\<lparr>command_history := command_history st @ [command]\<rparr>
      in if parts = [] then (Inr (), st1)
         else
           (case dispatch rt st1 (hd parts) parts of
              (Inr u, st2) \<Rightarrow> (Inr (), st2)
            | (Inl e, st2) \<Rightarrow>
                if is_FileNotFoundError e then (Inr (), py_print [str_exn rt e] st2)
                else if is_Exception e then (Inr (), py_print [''Error: '' @ str_exn rt e] st2)
                else (Inl e, st2)))"

text \<open>
  A line is empty or whitespace only: it is a sequence of whitespace code points
  (\<open>command == "" or command.isspace()\<close>).
\<close>

function only_whitespace :: "string \<Rightarrow> bool" where
  "only_whitespace [] = True"
| "only_whitespace (c # cs) =
     (case match_head whitespace_codes (c # cs) of
        None \<Rightarrow> False
      | Some rest \<Rightarrow> only_whitespace rest)"
  by pat_completeness auto
termination
  by (relation "measure length") (auto dest: match_head_shorter)

section \<open>The shell on a standard output that can fail\<close>

text \<open>
  A standard output: for a text, the exception that \<open>sys.stdout.write\<close> raises on it, if
  any. Nothing of a text that is refused is written.
\<close>

type_synonym out_stream = "string \<Rightarrow> exn option"

text \<open>
  \<open>print(*args)\<close> writes its arguments one by one, a space before each but the first, and
  the newline last.
\<close>

fun print_pieces :: "string list \<Rightarrow> string list" where
  "print_pieces [] = [[CHR 0x0A]]"
| "print_pieces [x] = [x, [CHR 0x0A]]"
| "print_pieces (x # y # ys) = x # '' '' # print_pieces (y # ys)"

fun write_all :: "out_stream \<Rightarrow> string list \<Rightarrow> shell_state \<Rightarrow> (exn + unit) \<times> shell_state" where
  "write_all out [] st = (Inr (), st)"
| "write_all out (s # ss) st =
     (case out s of
        Some e \<Rightarrow> (Inl e, st)
      | None \<Rightarrow> write_all out ss (st\<lparr>stdout := stdout st @ s\<rparr>))"

definition print_on :: "out_stream \<Rightarrow> string list \<Rightarrow> shell_state \<Rightarrow> (exn + unit) \<times> shell_state" where
  "print_on out args st = write_all out (print_pieces args) st"

text \<open>The loop of \<open>handle_history\<close>: it ends at the first \<open>print\<close> that raises.\<close>

fun history_loop_on :: "out_stream \<Rightarrow> nat list \<Rightarrow> shell_state \<Rightarrow> (exn + unit) \<times> shell_state" where
  "history_loop_on out [] st = (Inr (), st)"
| "history_loop_on out (i # js) st =
     (case print_on out [str_nat (i + 1), '' '', command_history st ! i] st of
        (Inl e, st') \<Rightarrow> (Inl e, st')
      | (Inr u, st') \<Rightarrow> history_loop_on out js st')"

definition handle_history_on :: "out_stream \<Rightarrow> string list \<Rightarrow> shell_state \<Rightarrow> (exn + unit) \<times> shell_state" where
  "handle_history_on out parts st = history_loop_on out [0..<length (command_history st)] st"

definition handle_date_on :: "out_stream \<Rightarrow> runtime \<Rightarrow> shell_state \<Rightarrow> (exn + unit) \<times> shell_state" where
  "handle_date_on out rt st = print_on out [now_strftime rt] st"

text \<open>The body of the \<open>try\<close> of \<open>process_command\<close>.\<close>

definition dispatch_on :: "out_stream \<Rightarrow> runtime \<Rightarrow> shell_state \<Rightarrow> string \<Rightarrow> string list \<Rightarrow> (exn + unit) \<times> shell_state" where
  "dispatch_on out rt st cmd parts =
     (if cmd = ''ls'' then
        (case list_dir (vfs st) of
           Inl e \<Rightarrow> (Inl e, st)
         | Inr listing \<Rightarrow> print_on out [py_join [CHR 0x0A] listing] st)
      else if cmd = ''pwd'' then print_on out [current_path (vfs st)] st
      else if cmd = ''cd'' then
        (if length parts > 1 then
           (case change_dir (vfs st) (parts ! 1) of (r, v) \<Rightarrow> (r, st\<lparr>vfs := v\<rparr>))
         else print_on out [''Usage: cd <directory>''] st)
      else if cmd = ''history'' then handle_history_on out parts st
      else if cmd = ''date'' then handle_date_on out rt st
      else print_on out [''Command not found: '' @ cmd] st)"

text \<open>
  \<open>process_command\<close>: the \<open>print\<close> of an \<open>except\<close> clause is outside the \<open>try\<close>, so what
  it raises leaves the function.
\<close>

definition process_command_on :: "out_stream \<Rightarrow> runtime \<Rightarrow> shell_state \<Rightarrow> string \<Rightarrow> (exn + unit) \<times> shell_state" where
  "process_command_on out rt st command =
     (let parts = py_split command;
          st1 = st\<lparr>command_history := command_history st @ [command]\<rparr>
      in if parts = [] then (Inr (), st1)
         else
           (case dispatch_on out rt st1 (hd parts) parts of
              (Inr u, st2) \<Rightarrow> (Inr (), st2)
            | (Inl e, st2) \<Rightarrow>
                if is_FileNotFoundError e then print_on out [str_exn rt e] st2
                else if is_Exception e then print_on out [''Error: '' @ str_exn rt e] st2
                else (Inl e, st2)))"


section \<open>States of the tests\<close>

text \<open>The file system of \<open>test_change_dir_error\<close>: one folder with one file, at the root.\<close>

definition dir1_vfs :: VirtualFileSystem where
  "dir1_vfs =
     \<lparr>current_dir = ''/'',
      fs = Folder [(''dir1'', Folder [(''file1.txt'', File)])],
      files_content = []\<rparr>"

text \<open>The state of \<open>test_current_path\<close> and \<open>test_pwd\<close>: two levels below the root.\<close>

definition subdir_vfs :: VirtualFileSystem where
  "subdir_vfs = dir1_vfs\<lparr>current_dir := ''/dir1/subdir''\<rparr>"

text \<open>The archive of \<open>test_load_zip\<close>, the second entry with the text \<open>hello\<close>, and its load.\<close>

definition test_archive :: zip_archive where
  "test_archive = [(''file1.txt'', Inr ''''), (''dir/file2.txt'', Inr ''hello'')]"

definition test_vfs :: VirtualFileSystem where
  "test_vfs =
     \<lparr>current_dir = ''/'',
      fs = Folder [(''file1.txt'', File), (''dir'', Folder [(''file2.txt'', File)])],
      files_content = [(''file1.txt'', ''''), (''dir/file2.txt'', ''hello'')]\<rparr>"

text \<open>The example of the spec for listings: the entries \<open>b.txt\<close>, \<open>a.txt\<close> and \<open>dir1/\<close>.\<close>

definition listing_vfs :: VirtualFileSystem where
  "listing_vfs =
     \<lparr>current_dir = ''/'',
      fs = Folder [(''b.txt'', File), (''a.txt'', File), (''dir1'', Folder [])],
      files_content = [(''b.txt'', ''''), (''a.txt'', '''')]\<rparr>"

text \<open>An archive with a file two folders deep, and its load.\<close>

definition nested_archive :: zip_archive where
  "nested_archive = [(''a/b/c.txt'', Inr ''hello'')]"

definition nested_vfs :: VirtualFileSystem where
  "nested_vfs =
     \<lparr>current_dir = ''/'',
      fs = Folder [(''a'', Folder [(''b'', Folder [(''c.txt'', File)])])],
      files_content = [(''a/b/c.txt'', ''hello'')]\<rparr>"

text \<open>A root that holds a file whose name is \<open>..\<close>.\<close>

definition dotdot_vfs :: VirtualFileSystem where
  "dotdot_vfs = \<lparr>current_dir = ''/'', fs = Folder [(''..'', File)], files_content = []\<rparr>"

text \<open>
  A runtime for the examples: \<open>repr\<close> of a name of letters, digits and dots is the name in
  single quotes, and the clock shows the date of the spec's example.
\<close>

definition test_runtime :: runtime where
  "test_runtime = \<lparr>repr = quoted, now_strftime = ''Wed Jun 12 14:05:09 2024''\<rparr>"

text \<open>A shell that has just been started on \<open>dir1_vfs\<close>.\<close>

definition fresh_shell :: shell_state where
  "fresh_shell = \<lparr>vfs = dir1_vfs, command_history = [], stdout = []\<rparr>"




text \<open>The shell after the commands \<open>ls\<close> and \<open>pwd\<close>, and what \<open>history\<close> then prints.\<close>

definition ls_pwd_shell :: shell_state where
  "ls_pwd_shell =
     snd (process_command test_runtime (snd (process_command test_runtime fresh_shell ''ls'')) ''pwd'')"

definition history_output :: string where
  "history_output =
     drop (length (stdout ls_pwd_shell))
       (stdout (snd (process_command test_runtime ls_pwd_shell ''history'')))"

text \<open>
  The format of a line of \<open>history\<close> in the words of the spec: the index, a separator of two
  characters, the command.
\<close>

definition two_char_separated :: "nat \<Rightarrow> string \<Rightarrow> string \<Rightarrow> bool" where
  "two_char_separated i command line =
     (length line = length (str_nat i) + 2 + length command
      \<and> take (length (str_nat i)) line = str_nat i
      \<and> drop (length (str_nat i) + 2) line = command)"

text \<open>The line that \<open>print(i, " ", command)\<close> writes.\<close>

definition history_line :: "nat \<Rightarrow> string \<Rightarrow> string" where
  "history_line i command = str_nat i @ ''   '' @ command @ [CHR 0x0A]"

section \<open>Properties\<close>

subsection \<open>Whitespace-only input\<close>

lemma split_ws_Nil_iff: "split_ws w s = [] \<longleftrightarrow> w = [] \<and> only_whitespace s"
  by (induction w s rule: split_ws.induct) (auto split: option.splits)

lemma py_split_Nil_iff: "py_split s = [] \<longleftrightarrow> only_whitespace s"
  by (simp add: py_split_def split_ws_Nil_iff)

text \<open>
  C9: an empty or whitespace-only line given to \<open>process_command\<close> is appended as it is to
  the command history; nothing is printed, no exception leaves the call and no other part of
  the state changes.
\<close>

theorem blank_line_only_recorded:
  "only_whitespace command \<Longrightarrow>
   process_command rt st command =
     (Inr (), st\<lparr>command_history := command_history st @ [command]\<rparr>)"
  by (simp add: process_command_def py_split_Nil_iff)

theorem blank_line_only_recorded_witness:
  "only_whitespace [CHR 0x20, CHR 0x09] \<and>
   process_command test_runtime fresh_shell [CHR 0x20, CHR 0x09] =
     (Inr (), fresh_shell\<lparr>command_history := [[CHR 0x20, CHR 0x09]]\<rparr>)"
proof -
  have blank: "only_whitespace [CHR 0x20, CHR 0x09]"
    by code_simp
  have "command_history fresh_shell = []"
    by (simp add: fresh_shell_def)
  with blank blank_line_only_recorded [OF blank, of test_runtime fresh_shell] show ?thesis
    by simp
qed

subsection \<open>Changing to a name that is not listed\<close>

text \<open>
  C5: when the current directory has a listing, a name other than \<open>..\<close> that is not in it
  makes \<open>change_dir\<close> raise FileNotFoundError ("No such directory: ...", the spec's
  DirectoryNotFound), and the object, with its current directory, is as before the call.
\<close>

theorem change_dir_missing_raises:
  "list_dir v = Inr listing \<Longrightarrow> name \<noteq> ''..'' \<Longrightarrow> name \<notin> set listing \<Longrightarrow>
   change_dir v name = (Inl (FileNotFoundError (''No such directory: '' @ name)), v)"
  by (simp add: change_dir_def)

theorem change_dir_missing_raises_witness:
  "list_dir dir1_vfs = Inr [''dir1''] \<and> ''nonexistent_dir'' \<noteq> ''..''
   \<and> ''nonexistent_dir'' \<notin> set [''dir1'']
   \<and> change_dir dir1_vfs ''nonexistent_dir''
       = (Inl (FileNotFoundError ''No such directory: nonexistent_dir''), dir1_vfs)"
proof -
  have listing: "list_dir dir1_vfs = Inr [''dir1'']"
    by code_simp
  have other: "''nonexistent_dir'' \<noteq> ''..''" and absent: "''nonexistent_dir'' \<notin> set [''dir1'']"
    by simp_all
  from listing other absent change_dir_missing_raises [OF listing other absent]
  show ?thesis by simp
qed

subsection \<open>Going up\<close>

lemma split_sep_not_Nil: "split_sep sep s \<noteq> []"
  by (induction s) auto

lemma split_sep_plain: "sep \<notin> set x \<Longrightarrow> split_sep sep x = [x]"
  by (induction x) auto

lemma split_sep_first:
  "sep \<notin> set x \<Longrightarrow> split_sep sep (x @ sep # rest) = x # split_sep sep rest"
  by (induction x) auto

lemma split_sep_join:
  "xs \<noteq> [] \<Longrightarrow> \<forall>x\<in>set xs. sep \<notin> set x \<Longrightarrow> split_sep sep (py_join [sep] xs) = xs"
proof (induction "[sep]" xs rule: py_join.induct)
  case 1
  then show ?case by simp
next
  case (2 x)
  then show ?case by (simp add: split_sep_plain)
next
  case (3 x y ys)
  then show ?case by (simp add: split_sep_first)
qed

lemma py_join_empty_head:
  "py_join sep ([] # xs) = (if xs = [] then [] else sep @ py_join sep xs)"
  by (cases xs) auto

lemma parent_path:
  assumes "\<forall>seg\<in>set (segs @ [s]). CHR ''/'' \<notin> set seg"
  shows "py_join ''/'' (butlast (split_sep CHR ''/'' (''/'' @ py_join ''/'' (segs @ [s]))))
         = (if segs = [] then [] else ''/'' @ py_join ''/'' segs)"
proof -
  have "''/'' @ py_join ''/'' (segs @ [s]) = py_join ''/'' ([] # segs @ [s])"
    by (simp add: py_join_empty_head)
  moreover have "split_sep CHR ''/'' (py_join ''/'' ([] # segs @ [s])) = [] # segs @ [s]"
    using assms by (intro split_sep_join) auto
  ultimately have
    "butlast (split_sep CHR ''/'' (''/'' @ py_join ''/'' (segs @ [s]))) = [] # segs"
    by (simp add: butlast_append)
  then show ?thesis by (simp add: py_join_empty_head)
qed

text \<open>
  C6: at the root \<open>/\<close>, \<open>change_dir("..")\<close> succeeds and leaves the object as it is. In a
  state whose current directory is \<open>/s1/.../sn/s\<close> (segments without a slash) it succeeds
  and the current directory becomes \<open>/s1/.../sn\<close>, which is \<open>/\<close> when \<open>n = 0\<close>: exactly the
  last segment is removed.
\<close>

theorem change_dir_parent:
  "(current_dir v = ''/'' \<longrightarrow> change_dir v ''..'' = (Inr (), v))
   \<and> ((\<forall>seg\<in>set (segs @ [s]). CHR ''/'' \<notin> set seg)
       \<and> current_dir v = ''/'' @ py_join ''/'' (segs @ [s])
      \<longrightarrow> change_dir v ''..'' = (Inr (), v\<lparr>current_dir := ''/'' @ py_join ''/'' segs\<rparr>))"
proof (intro conjI impI)
  assume "current_dir v = ''/''"
  then show "change_dir v ''..'' = (Inr (), v)"
    by (simp add: change_dir_def)
next
  assume "(\<forall>seg\<in>set (segs @ [s]). CHR ''/'' \<notin> set seg)
       \<and> current_dir v = ''/'' @ py_join ''/'' (segs @ [s])"
  then show "change_dir v ''..'' = (Inr (), v\<lparr>current_dir := ''/'' @ py_join ''/'' segs\<rparr>)"
    using parent_path [of segs s] by (simp add: change_dir_def Let_def)
qed

theorem change_dir_parent_witness:
  "current_dir dir1_vfs = ''/'' \<and> change_dir dir1_vfs ''..'' = (Inr (), dir1_vfs)
   \<and> CHR ''/'' \<notin> set ''dir1'' \<and> CHR ''/'' \<notin> set ''subdir''
   \<and> current_dir subdir_vfs = ''/'' @ py_join ''/'' ([''dir1''] @ [''subdir''])
   \<and> change_dir subdir_vfs ''..'' = (Inr (), subdir_vfs\<lparr>current_dir := ''/dir1''\<rparr>)"
proof -
  have root: "current_dir dir1_vfs = ''/''"
    by (simp add: dir1_vfs_def)
  have segs: "\<forall>seg\<in>set ([''dir1''] @ [''subdir'']). CHR ''/'' \<notin> set seg"
    by simp
  have below: "current_dir subdir_vfs = ''/'' @ py_join ''/'' ([''dir1''] @ [''subdir''])"
    by (simp add: subdir_vfs_def)
  from root change_dir_parent [of dir1_vfs "[]" "[]"]
  have "change_dir dir1_vfs ''..'' = (Inr (), dir1_vfs)"
    by simp
  moreover from segs below change_dir_parent [of subdir_vfs "[''dir1'']" "''subdir''"]
  have "change_dir subdir_vfs ''..'' = (Inr (), subdir_vfs\<lparr>current_dir := ''/dir1''\<rparr>)"
    by simp
  ultimately show ?thesis
    using root segs below by simp
qed

subsection \<open>The command history\<close>

lemma py_print_fields [simp]:
  "command_history (py_print args st) = command_history st"
  "vfs (py_print args st) = vfs st"
  "stdout (py_print args st) = stdout st @ py_join '' '' args @ [CHR 0x0A]"
  by (simp_all add: py_print_def)

lemma history_loop:
  "fold (\<lambda>i s. py_print [str_nat (i + 1), '' '', command_history s ! i] s) js st
   = st\<lparr>stdout := stdout st
        @ concat (map (\<lambda>i. history_line (i + 1) (command_history st ! i)) js)\<rparr>"
proof (induction js arbitrary: st)
  case Nil
  show ?case by simp
next
  case (Cons j js)
  let ?f = "\<lambda>i s. py_print [str_nat (i + 1), '' '', command_history s ! i] s"
  let ?st = "py_print [str_nat (j + 1), '' '', command_history st ! j] st"
  have "fold ?f (j # js) st = fold ?f js ?st"
    by simp
  also have "\<dots> = ?st\<lparr>stdout := stdout ?st
      @ concat (map (\<lambda>i. history_line (i + 1) (command_history ?st ! i)) js)\<rparr>"
    by (rule Cons.IH)
  also have "\<dots> = st\<lparr>stdout := stdout st
      @ concat (map (\<lambda>i. history_line (i + 1) (command_history st ! i)) (j # js))\<rparr>"
    by (simp add: py_print_def history_line_def)
  finally show ?case .
qed

lemma handle_history_eq:
  "handle_history parts st
   = st\<lparr>stdout := stdout st
        @ concat (map (\<lambda>i. history_line (i + 1) (command_history st ! i))
            [0..<length (command_history st)])\<rparr>"
  unfolding handle_history_def by (rule history_loop)

lemma dispatch_history:
  "command_history (snd (dispatch rt st cmd parts)) = command_history st"
  by (auto simp: dispatch_def handle_history_eq handle_date_def split: sum.splits prod.splits)

lemma process_command_history:
  "command_history (snd (process_command rt st command)) = command_history st @ [command]"
proof (cases "py_split command = []")
  case True
  then show ?thesis by (simp add: process_command_def)
next
  case False
  let ?st1 = "st\<lparr>command_history := command_history st @ [command]\<rparr>"
  obtain r st2 where d: "dispatch rt ?st1 (hd (py_split command)) (py_split command) = (r, st2)"
    by (cases "dispatch rt ?st1 (hd (py_split command)) (py_split command)")
  from dispatch_history [of rt ?st1 "hd (py_split command)" "py_split command"] d
  have "command_history st2 = command_history st @ [command]" by simp
  with False d show ?thesis
    by (cases r) (simp_all add: process_command_def Let_def)
qed

lemma process_command_stdout_history:
  "stdout (snd (process_command rt st ''history''))
   = stdout st
     @ concat (map (\<lambda>i. history_line (i + 1) ((command_history st @ [''history'']) ! i))
         [0..<Suc (length (command_history st))])"
proof -
  have "py_split ''history'' = [''history'']" by code_simp
  then show ?thesis
    by (simp add: process_command_def Let_def dispatch_def handle_history_eq del: upt_Suc)
qed

lemma str_nat_digits: "str_nat 1 = ''1''" "str_nat 2 = ''2''" "str_nat 3 = ''3''"
  by code_simp+

text \<open>
  C7, as the code has it: from an empty history, after the commands \<open>ls\<close>, \<open>pwd\<close> and
  \<open>history\<close> the history holds exactly these three, and the \<open>history\<close> command prints three
  lines, for the indices 1, 2, 3: the index, three spaces (the one-space string that the
  code passes to \<open>print\<close> between the index and the command, with the space \<open>print\<close> puts
  between its arguments on either side), and the command as it was typed.
\<close>

theorem history_after_three_commands:
  assumes "command_history st = []"
  shows "let st2 = snd (process_command rtb (snd (process_command rta st ''ls'')) ''pwd'');
             st3 = snd (process_command rtc st2 ''history'')
         in command_history st3 = [''ls'', ''pwd'', ''history'']
            \<and> stdout st3 = stdout st2 @ ''1   ls'' @ [CHR 0x0A] @ ''2   pwd'' @ [CHR 0x0A]
                 @ ''3   history'' @ [CHR 0x0A]"
proof -
  define st2 where "st2 = snd (process_command rtb (snd (process_command rta st ''ls'')) ''pwd'')"
  have h2: "command_history st2 = [''ls'', ''pwd'']"
    by (simp add: st2_def process_command_history assms)
  have "[0..<3] = [0, 1, 2]" by (simp add: upt_rec)
  then have "stdout (snd (process_command rtc st2 ''history''))
     = stdout st2 @ ''1   ls'' @ [CHR 0x0A] @ ''2   pwd'' @ [CHR 0x0A]
       @ ''3   history'' @ [CHR 0x0A]"
    using str_nat_digits
    by (simp add: process_command_stdout_history h2 history_line_def eval_nat_numeral
        del: upt_Suc)
  then show ?thesis
    by (simp add: Let_def st2_def [symmetric] process_command_history h2)
qed

theorem history_after_three_commands_witness:
  "command_history fresh_shell = []
   \<and> command_history (snd (process_command test_runtime ls_pwd_shell ''history''))
       = [''ls'', ''pwd'', ''history'']
   \<and> stdout (snd (process_command test_runtime ls_pwd_shell ''history''))
       = stdout ls_pwd_shell @ ''1   ls'' @ [CHR 0x0A] @ ''2   pwd'' @ [CHR 0x0A]
         @ ''3   history'' @ [CHR 0x0A]"
proof -
  have empty: "command_history fresh_shell = []"
    by (simp add: fresh_shell_def)
  from empty
    history_after_three_commands [OF empty, of test_runtime test_runtime test_runtime]
  show ?thesis
    by (simp add: Let_def ls_pwd_shell_def)
qed

text \<open>
  The claim C7 as the spec words it fails: the first line that \<open>history\<close> prints in the
  example is not the index, two characters and the command.
\<close>

theorem history_separator_counterexample:
  "splitlines history_output = [''1   ls'', ''2   pwd'', ''3   history'']
   \<and> \<not> two_char_separated 1 ''ls'' (hd (splitlines history_output))"
  by code_simp

subsection \<open>Exceptions and the shell\<close>









lemma blank_line_on:
  "only_whitespace command \<Longrightarrow>
   process_command_on out rt st command
     = (Inr (), st\<lparr>command_history := command_history st @ [command]\<rparr>)"
  by (simp add: process_command_on_def py_split_Nil_iff)




subsection \<open>The tree that \<open>load_zip\<close> builds\<close>

lemma update_member: "x \<in> set (AList.update k v al) \<Longrightarrow> x = (k, v) \<or> x \<in> set al"
  by (induction al) (auto split: if_splits)

lemma add_entry_ok: "dict_ok d \<Longrightarrow> add_entry ps lst d = Inr d' \<Longrightarrow> dict_ok d'"
proof (induction ps arbitrary: d d')
  case Nil
  then show ?case
    by (cases d) (auto simp: AList.distinct_update split: if_splits dest!: update_member)
next
  case (Cons part rest)
  from Cons.prems obtain kvs where d: "d = Folder kvs"
    by (cases d) auto
  let ?child = "case map_of kvs part of None \<Rightarrow> Folder [] | Some child \<Rightarrow> child"
  from Cons.prems d obtain child' where c: "add_entry rest lst ?child = Inr child'"
    and d': "d' = Folder (AList.update part child' kvs)"
    by (auto split: sum.splits)
  have "dict_ok ?child"
    using Cons.prems(1) d by (auto split: option.splits dest!: map_of_SomeD intro: rev_image_eqI)
  from Cons.IH [OF this c] have "dict_ok child'" .
  with Cons.prems(1) d d' show ?case
    by (auto simp: AList.distinct_update dest!: update_member)
qed

lemma add_entry_root:
  assumes "add_entry ps lst (Folder kvs) = Inr d"
  shows "\<exists>kvs'. d = Folder kvs' \<and> fst ` set kvs \<subseteq> fst ` set kvs'
           \<and> (ps \<noteq> [] \<longrightarrow> hd ps \<in> fst ` set kvs')"
proof (cases ps)
  case Nil
  with assms show ?thesis
    by (auto simp: AList.dom_update split: if_splits)
next
  case (Cons part rest)
  with assms show ?thesis
    by (auto simp: AList.dom_update split: sum.splits)
qed

text \<open>One round of the loop of \<open>load_zip\<close> that is followed by a successful load.\<close>

lemma load_entries_step:
  assumes "load_entries z (f0 # files) v = Inr v'"
  obtains d v1 where
    "add_entry (butlast (split_sep CHR ''/'' f0)) (last (split_sep CHR ''/'' f0)) (fs v) = Inr d"
    "load_entries z files v1 = Inr v'" "fs v1 = d" "current_dir v1 = current_dir v"
    "files_content v1 = files_content v
       \<or> (\<exists>t. z_read_decode z f0 = Inr t
              \<and> files_content v1 = AList.update f0 t (files_content v))"
    "last (split_sep CHR ''/'' f0) \<noteq> [] \<longrightarrow>
       (\<exists>t. z_read_decode z f0 = Inr t
              \<and> files_content v1 = AList.update f0 t (files_content v))"
proof (cases "add_entry (butlast (split_sep CHR ''/'' f0)) (last (split_sep CHR ''/'' f0)) (fs v)")
  case (Inl e)
  with assms show ?thesis by (simp add: Let_def)
next
  case (Inr d)
  show ?thesis
  proof (cases "last (split_sep CHR ''/'' f0) = []")
    case True
    with assms Inr that [of d "v\<lparr>fs := d\<rparr>"] show ?thesis
      by (simp add: Let_def)
  next
    case False
    show ?thesis
    proof (cases "z_read_decode z f0")
      case (Inl e)
      with assms Inr False show ?thesis by (simp add: Let_def)
    next
      case decoded: (Inr body)
      with assms Inr False
        that [of d "v\<lparr>fs := d, files_content := AList.update f0 body (files_content v)\<rparr>"]
      show ?thesis by (simp add: Let_def)
    qed
  qed
qed

lemma load_entries_ok:
  "load_entries z files v = Inr v' \<Longrightarrow> dict_ok (fs v) \<Longrightarrow> dict_ok (fs v')"
proof (induction files arbitrary: v)
  case Nil
  then show ?case by simp
next
  case (Cons f0 files)
  from Cons.prems(1) obtain d v1 where
    d: "add_entry (butlast (split_sep CHR ''/'' f0)) (last (split_sep CHR ''/'' f0)) (fs v) = Inr d"
    and v1: "load_entries z files v1 = Inr v'" "fs v1 = d"
    by (rule load_entries_step)
  from add_entry_ok [OF Cons.prems(2) d] v1(2) have "dict_ok (fs v1)" by simp
  from Cons.IH [OF v1(1) this] show ?case .
qed

lemma walk_ok: "dict_ok d \<Longrightarrow> walk d ps = Inr d' \<Longrightarrow> dict_ok d'"
proof (induction ps arbitrary: d)
  case Nil
  then show ?case by simp
next
  case (Cons part rest)
  show ?case
  proof (cases "part = []")
    case True
    with Cons show ?thesis by simp
  next
    case False
    show ?thesis
    proof (cases d)
      case File
      with Cons.prems(2) False show ?thesis by simp
    next
      case (Folder kvs)
      show ?thesis
      proof (cases "map_of kvs part")
        case None
        with Cons.prems(2) False Folder show ?thesis by simp
      next
        case (Some n)
        then have "(part, n) \<in> set kvs"
          by (rule map_of_SomeD)
        with Cons.prems(1) Folder have "dict_ok n" by auto
        moreover from Cons.prems(2) False Folder Some have "walk n rest = Inr d'" by simp
        ultimately show ?thesis by (rule Cons.IH)
      qed
    qed
  qed
qed

text \<open>
  In a file system that \<open>load_zip\<close> has built, wherever the current directory has been
  moved to, a folder it names has each key once.
\<close>

lemma loaded_keys_distinct:
  assumes "init_vfs z = Inr v"
    and "current_node (v\<lparr>current_dir := p\<rparr>) = Inr (Folder dirs)"
  shows "distinct (map fst dirs)"
proof -
  from assms(1) have "load_entries z (namelist z)
      \<lparr>current_dir = ''/'', fs = Folder [], files_content = []\<rparr> = Inr v"
    by (simp add: init_vfs_def load_zip_def)
  from load_entries_ok [OF this] have "dict_ok (fs v)" by simp
  moreover from assms(2)
  have "walk (fs v) (split_sep CHR ''/'' (py_strip ''/'' p)) = Inr (Folder dirs)"
    by (simp add: current_node_def)
  ultimately have "dict_ok (Folder dirs)" by (rule walk_ok)
  then show ?thesis by simp
qed

lemma load_entries_root:
  "load_entries z files v = Inr v' \<Longrightarrow> fs v = Folder kvs \<Longrightarrow>
   \<exists>kvs'. fs v' = Folder kvs' \<and> fst ` set kvs \<subseteq> fst ` set kvs'"
proof (induction files arbitrary: v kvs)
  case Nil
  then show ?case by auto
next
  case (Cons f0 files)
  from Cons.prems(1) obtain d v1 where
    d: "add_entry (butlast (split_sep CHR ''/'' f0)) (last (split_sep CHR ''/'' f0)) (fs v) = Inr d"
    and v1: "load_entries z files v1 = Inr v'" "fs v1 = d"
    by (rule load_entries_step)
  from d Cons.prems(2) have "add_entry (butlast (split_sep CHR ''/'' f0))
      (last (split_sep CHR ''/'' f0)) (Folder kvs) = Inr d"
    by simp
  from add_entry_root [OF this]
  obtain kvs1 where k1: "d = Folder kvs1" "fst ` set kvs \<subseteq> fst ` set kvs1"
    by blast
  from Cons.IH [OF v1(1), of kvs1] v1(2) k1(1)
  obtain kvs' where "fs v' = Folder kvs'" "fst ` set kvs1 \<subseteq> fst ` set kvs'"
    by auto
  with k1(2) show ?case by auto
qed

lemma load_entries_current_dir:
  "load_entries z files v = Inr v' \<Longrightarrow> current_dir v' = current_dir v"
proof (induction files arbitrary: v)
  case Nil
  then show ?case by simp
next
  case (Cons f0 files)
  from Cons.prems obtain v1 where
    "load_entries z files v1 = Inr v'" "current_dir v1 = current_dir v"
    by (rule load_entries_step)
  with Cons.IH [of v1] show ?case by simp
qed

lemma load_entries_first_part:
  assumes "load_entries z files v = Inr v'" and "fs v = Folder kvs"
    and "name \<in> set files" and "butlast (split_sep CHR ''/'' name) \<noteq> []"
  shows "\<exists>kvs'. fs v' = Folder kvs' \<and> hd (split_sep CHR ''/'' name) \<in> fst ` set kvs'"
  using assms
proof (induction files arbitrary: v kvs)
  case Nil
  then show ?case by simp
next
  case (Cons f0 files)
  from Cons.prems(1) obtain d v1 where
    d: "add_entry (butlast (split_sep CHR ''/'' f0)) (last (split_sep CHR ''/'' f0)) (fs v) = Inr d"
    and v1: "load_entries z files v1 = Inr v'" "fs v1 = d"
    by (rule load_entries_step)
  from d Cons.prems(2) have "add_entry (butlast (split_sep CHR ''/'' f0))
      (last (split_sep CHR ''/'' f0)) (Folder kvs) = Inr d"
    by simp
  from add_entry_root [OF this]
  obtain kvs1 where k1: "d = Folder kvs1"
    and h1: "butlast (split_sep CHR ''/'' f0) \<noteq> []
               \<longrightarrow> hd (butlast (split_sep CHR ''/'' f0)) \<in> fst ` set kvs1"
    by blast
  show ?case
  proof (cases "name \<in> set files")
    case True
    from Cons.IH [OF v1(1) _ True Cons.prems(4), of kvs1] v1(2) k1 show ?thesis by simp
  next
    case False
    with Cons.prems(3) have "f0 = name" by simp
    moreover have "hd (butlast (split_sep CHR ''/'' name)) = hd (split_sep CHR ''/'' name)"
      using Cons.prems(4) by (cases "split_sep CHR ''/'' name") (auto split: if_splits)
    ultimately have "hd (split_sep CHR ''/'' name) \<in> fst ` set kvs1"
      using h1 Cons.prems(4) by simp
    moreover from load_entries_root [OF v1(1), of kvs1] v1(2) k1
    obtain kvs' where "fs v' = Folder kvs'" "fst ` set kvs1 \<subseteq> fst ` set kvs'"
      by auto
    ultimately show ?thesis by auto
  qed
qed

lemma load_entries_keeps_content:
  "load_entries z files v = Inr v' \<Longrightarrow> map_of (files_content v) name = Some t \<Longrightarrow>
   z_read_decode z name = Inr t \<Longrightarrow> map_of (files_content v') name = Some t"
proof (induction files arbitrary: v)
  case Nil
  then show ?case by simp
next
  case (Cons f0 files)
  from Cons.prems(1) obtain v1 where v1: "load_entries z files v1 = Inr v'"
    and c1: "files_content v1 = files_content v
        \<or> (\<exists>t. z_read_decode z f0 = Inr t
              \<and> files_content v1 = AList.update f0 t (files_content v))"
    by (rule load_entries_step)
  from c1 Cons.prems(2,3) have "map_of (files_content v1) name = Some t"
    by (auto simp: AList.update_conv')
  from Cons.IH [OF v1 this Cons.prems(3)] show ?case .
qed

lemma load_entries_content:
  assumes "load_entries z files v = Inr v'" and "name \<in> set files"
    and "last (split_sep CHR ''/'' name) \<noteq> []"
  shows "\<exists>t. z_read_decode z name = Inr t \<and> map_of (files_content v') name = Some t"
  using assms
proof (induction files arbitrary: v)
  case Nil
  then show ?case by simp
next
  case (Cons f0 files)
  from Cons.prems(1) obtain v1 where v1: "load_entries z files v1 = Inr v'"
    and c1: "last (split_sep CHR ''/'' f0) \<noteq> [] \<longrightarrow>
       (\<exists>t. z_read_decode z f0 = Inr t
              \<and> files_content v1 = AList.update f0 t (files_content v))"
    by (rule load_entries_step)
  show ?case
  proof (cases "f0 = name")
    case True
    with c1 Cons.prems(3) obtain t where t: "z_read_decode z name = Inr t"
      "map_of (files_content v1) name = Some t"
      by (auto simp: AList.update_conv')
    with load_entries_keeps_content [OF v1 t(2) t(1)] show ?thesis by simp
  next
    case False
    with Cons.prems(2) have "name \<in> set files" by simp
    from Cons.IH [OF v1 this Cons.prems(3)] show ?thesis .
  qed
qed

subsection \<open>Listing\<close>

lemma is_dict_iff: "is_dict x \<longleftrightarrow> (\<exists>sub. x = Some (Folder sub))"
  by (auto simp: is_dict_def split: option.splits node.splits)

lemma is_None_iff: "is_None x \<longleftrightarrow> x = Some File"
  by (auto simp: is_None_def split: option.splits node.splits)

text \<open>
  C4: when the current directory names a folder, \<open>list_dir\<close> returns the names of the
  children that are folders, in ascending order, followed by the names of the children that
  are files, in ascending order, and every child is listed exactly once.
\<close>

theorem list_dir_folders_then_files:
  assumes node: "current_node v = Inr (Folder dirs)"
    and keys: "distinct (map fst dirs)"
  shows "\<exists>folders files. list_dir v = Inr (folders @ files)
           \<and> sorted folders \<and> sorted files
           \<and> set folders = {name. \<exists>sub. (name, Folder sub) \<in> set dirs}
           \<and> set files = {name. (name, File) \<in> set dirs}
           \<and> distinct (folders @ files)
           \<and> set (folders @ files) = fst ` set dirs"
proof -
  let ?folders = "sort [name \<leftarrow> map fst dirs. is_dict (map_of dirs name)]"
  let ?files = "sort [name \<leftarrow> map fst dirs. is_None (map_of dirs name)]"
  have child: "map_of dirs name = Some n \<longleftrightarrow> (name, n) \<in> set dirs" for name n
    using keys by simp
  have listing: "list_dir v = Inr (?folders @ ?files)"
    by (simp add: list_dir_def node)
  have folders: "set ?folders = {name. \<exists>sub. (name, Folder sub) \<in> set dirs}"
    by (auto simp: is_dict_iff child intro: rev_image_eqI)
  have files: "set ?files = {name. (name, File) \<in> set dirs}"
    by (auto simp: is_None_iff child intro: rev_image_eqI)
  have apart: "set ?folders \<inter> set ?files = {}"
    by (auto simp: is_dict_iff is_None_iff)
  have once: "distinct (?folders @ ?files)"
    using keys apart by (simp add: distinct_map_filter)
  have all: "set (?folders @ ?files) = fst ` set dirs"
  proof -
    have "(\<exists>sub. (name, Folder sub) \<in> set dirs) \<or> (name, File) \<in> set dirs"
      if "(name, n) \<in> set dirs" for name n
      using that by (cases n) auto
    then have "fst ` set dirs
        \<subseteq> {name. \<exists>sub. (name, Folder sub) \<in> set dirs} \<union> {name. (name, File) \<in> set dirs}"
      by fastforce
    moreover have
      "{name. \<exists>sub. (name, Folder sub) \<in> set dirs} \<union> {name. (name, File) \<in> set dirs}
        \<subseteq> fst ` set dirs"
      by (auto intro: rev_image_eqI)
    ultimately show ?thesis
      unfolding set_append folders files by blast
  qed
  from listing folders files once all show ?thesis
    by (intro exI [of _ ?folders] exI [of _ ?files]) (simp del: set_append distinct_append)
qed

theorem list_dir_folders_then_files_witness:
  "current_node listing_vfs
     = Inr (Folder [(''b.txt'', File), (''a.txt'', File), (''dir1'', Folder [])])
   \<and> distinct (map fst [(''b.txt'', File), (''a.txt'', File), (''dir1'', Folder [])])
   \<and> (\<exists>folders files. list_dir listing_vfs = Inr (folders @ files)
         \<and> sorted folders \<and> sorted files
         \<and> set folders = {name. \<exists>sub. (name, Folder sub)
               \<in> set [(''b.txt'', File), (''a.txt'', File), (''dir1'', Folder [])]}
         \<and> set files = {name. (name, File)
               \<in> set [(''b.txt'', File), (''a.txt'', File), (''dir1'', Folder [])]}
         \<and> distinct (folders @ files)
         \<and> set (folders @ files)
             = fst ` set [(''b.txt'', File), (''a.txt'', File), (''dir1'', Folder [])])
   \<and> list_dir listing_vfs = Inr [''dir1'', ''a.txt'', ''b.txt'']"
proof -
  let ?dirs = "[(''b.txt'', File), (''a.txt'', File), (''dir1'', Folder [])]"
  have node: "current_node listing_vfs = Inr (Folder ?dirs)"
    by code_simp
  have keys: "distinct (map fst ?dirs)"
    by simp
  have listing: "list_dir listing_vfs = Inr [''dir1'', ''a.txt'', ''b.txt'']"
    by code_simp
  from node keys listing list_dir_folders_then_files [OF node keys] show ?thesis
    by (intro conjI)
qed

lemma list_dir_root:
  assumes "current_dir v = ''/''" and "fs v = Folder dirs"
  shows "\<exists>listing. list_dir v = Inr listing \<and> set listing = fst ` set dirs"
proof -
  have "current_node v = Inr (Folder dirs)"
    using assms by (simp add: current_node_def py_strip_def)
  moreover have "is_dict (map_of dirs name) \<or> is_None (map_of dirs name)"
    if "name \<in> fst ` set dirs" for name
  proof -
    from that obtain n where "map_of dirs name = Some n"
      by (metis domD dom_map_of_conv_image_fst)
    then show ?thesis
      by (cases n) (simp_all add: is_dict_def is_None_def)
  qed
  ultimately show ?thesis
    by (auto simp: list_dir_def)
qed

subsection \<open>Loading, then reading\<close>

text \<open>
  C3: when the archive has an entry \<open>dir/file2.txt\<close> whose decoded text is \<open>hello\<close> and the
  load succeeds, then from the root \<open>change_dir("dir")\<close> succeeds and afterwards
  \<open>read_file("file2.txt")\<close> returns the list with the one line \<open>hello\<close>.
\<close>

theorem load_then_read_file:
  assumes loaded: "init_vfs z = Inr v"
    and entry: "''dir/file2.txt'' \<in> set (namelist z)"
    and content: "z_read_decode z ''dir/file2.txt'' = Inr ''hello''"
  shows "change_dir v ''dir'' = (Inr (), v\<lparr>current_dir := ''/dir''\<rparr>)
         \<and> read_file (v\<lparr>current_dir := ''/dir''\<rparr>) ''file2.txt'' = Inr [''hello'']"
proof -
  let ?v0 = "\<lparr>current_dir = ''/'', fs = Folder [], files_content = []\<rparr>"
  from loaded have load: "load_entries z (namelist z) ?v0 = Inr v"
    by (simp add: init_vfs_def load_zip_def)
  have parts: "split_sep CHR ''/'' ''dir/file2.txt'' = [''dir'', ''file2.txt'']"
    by simp
  from load_entries_current_dir [OF load] have root: "current_dir v = ''/''"
    by simp
  from load_entries_first_part [OF load _ entry, of "[]"] parts
  obtain dirs where dirs: "fs v = Folder dirs" "''dir'' \<in> fst ` set dirs"
    by auto
  from list_dir_root [OF root dirs(1)] dirs(2)
  obtain listing where "list_dir v = Inr listing" "''dir'' \<in> set listing"
    by auto
  then have cd: "change_dir v ''dir'' = (Inr (), v\<lparr>current_dir := ''/dir''\<rparr>)"
    using root by (simp add: change_dir_def py_strip_def)
  from load_entries_content [OF load entry] parts content
  have "map_of (files_content v) ''dir/file2.txt'' = Some ''hello''"
    by auto
  moreover have "splitlines ''hello'' = [''hello'']"
    by code_simp
  ultimately have "read_file (v\<lparr>current_dir := ''/dir''\<rparr>) ''file2.txt'' = Inr [''hello'']"
    by (simp add: read_file_def py_strip_def)
  with cd show ?thesis by simp
qed

theorem load_then_read_file_witness:
  "init_vfs test_archive = Inr test_vfs
   \<and> ''dir/file2.txt'' \<in> set (namelist test_archive)
   \<and> z_read_decode test_archive ''dir/file2.txt'' = Inr ''hello''
   \<and> change_dir test_vfs ''dir'' = (Inr (), test_vfs\<lparr>current_dir := ''/dir''\<rparr>)
   \<and> read_file (test_vfs\<lparr>current_dir := ''/dir''\<rparr>) ''file2.txt'' = Inr [''hello'']"
proof -
  have loaded: "init_vfs test_archive = Inr test_vfs"
    by code_simp
  have entry: "''dir/file2.txt'' \<in> set (namelist test_archive)"
    by code_simp
  have content: "z_read_decode test_archive ''dir/file2.txt'' = Inr ''hello''"
    by code_simp
  from loaded entry content load_then_read_file [OF loaded entry content] show ?thesis
    by (intro conjI) simp_all
qed

subsection \<open>Going down\<close>

text \<open>
  C1 fails on the code. The archive holds \<open>a/b/c.txt\<close>; from the root, \<open>change_dir("a")\<close>
  and then \<open>change_dir("b")\<close> succeed, and \<open>current_path()\<close> is \<open>/ab\<close>, not \<open>/a/b\<close>: the
  new segment is appended without its slash.
\<close>

theorem two_changes_lose_the_slash:
  "init_vfs nested_archive = Inr nested_vfs
   \<and> change_dir nested_vfs ''a'' = (Inr (), nested_vfs\<lparr>current_dir := ''/a''\<rparr>)
   \<and> change_dir (nested_vfs\<lparr>current_dir := ''/a''\<rparr>) ''b''
       = (Inr (), nested_vfs\<lparr>current_dir := ''/ab''\<rparr>)
   \<and> current_path (nested_vfs\<lparr>current_dir := ''/ab''\<rparr>) = ''/ab''
   \<and> current_path (nested_vfs\<lparr>current_dir := ''/ab''\<rparr>) \<noteq> ''/'' @ py_join ''/'' [''a'', ''b'']"
  by code_simp

text \<open>
  C2 fails on the code. After the same two successful calls the current directory names
  nothing in the tree, and \<open>list_dir\<close> raises KeyError. After one successful
  \<open>change_dir\<close> to a file of the root, \<open>list_dir\<close> raises AttributeError.
\<close>

theorem successful_changes_leave_the_tree:
  "init_vfs nested_archive = Inr nested_vfs
   \<and> fst (change_dir nested_vfs ''a'') = Inr ()
   \<and> fst (change_dir (snd (change_dir nested_vfs ''a'')) ''b'') = Inr ()
   \<and> current_node (snd (change_dir (snd (change_dir nested_vfs ''a'')) ''b''))
       = Inl (KeyError ''ab'')
   \<and> list_dir (snd (change_dir (snd (change_dir nested_vfs ''a'')) ''b''))
       = Inl (KeyError ''ab'')
   \<and> init_vfs test_archive = Inr test_vfs
   \<and> fst (change_dir test_vfs ''file1.txt'') = Inr ()
   \<and> current_node (snd (change_dir test_vfs ''file1.txt'')) = Inr File
   \<and> list_dir (snd (change_dir test_vfs ''file1.txt''))
       = Inl (AttributeError (NoneType_object ('' has no attribute '' @ quoted ''keys'')))"
  by code_simp

lemma dropWhile_absent: "c \<notin> set xs \<Longrightarrow> dropWhile (\<lambda>x. x = c) xs = xs"
  by (cases xs) auto

lemma py_strip_slash_name:
  "CHR ''/'' \<notin> set name \<Longrightarrow> py_strip ''/'' (CHR ''/'' # name) = name"
  by (simp add: py_strip_def dropWhile_absent)

text \<open>
  C10, as the code has it: \<open>change_dir(name)\<close> succeeds whenever \<open>name\<close> is in the current
  listing, a file as well as a folder. When the current directory is the root and \<open>name\<close>
  is a file of the root (a name that is not empty, has no slash and is not \<open>..\<close>), the
  current path becomes \<open>/name\<close> and names a node that is not a folder.
\<close>

theorem change_dir_accepts_files:
  "(list_dir v = Inr listing \<and> name \<in> set listing \<longrightarrow> fst (change_dir v name) = Inr ())
   \<and> (current_dir v = ''/'' \<and> fs v = Folder dirs \<and> map_of dirs name = Some File
        \<and> name \<noteq> [] \<and> CHR ''/'' \<notin> set name \<and> name \<noteq> ''..''
      \<longrightarrow> change_dir v name = (Inr (), v\<lparr>current_dir := ''/'' @ name\<rparr>)
          \<and> current_node (v\<lparr>current_dir := ''/'' @ name\<rparr>) = Inr File)"
proof (intro conjI impI)
  assume "list_dir v = Inr listing \<and> name \<in> set listing"
  then show "fst (change_dir v name) = Inr ()"
    by (simp add: change_dir_def Let_def)
next
  assume a: "current_dir v = ''/'' \<and> fs v = Folder dirs \<and> map_of dirs name = Some File
        \<and> name \<noteq> [] \<and> CHR ''/'' \<notin> set name \<and> name \<noteq> ''..''"
  then have node: "current_node v = Inr (Folder dirs)"
    by (simp add: current_node_def py_strip_def)
  from a have "name \<in> fst ` set dirs"
    by (auto dest!: map_of_SomeD intro: rev_image_eqI)
  with a have "name \<in> set [n \<leftarrow> map fst dirs. is_None (map_of dirs n)]"
    by (simp add: is_None_def)
  with node a show "change_dir v name = (Inr (), v\<lparr>current_dir := ''/'' @ name\<rparr>)"
    by (simp add: change_dir_def list_dir_def py_strip_slash_name)
next
  assume a: "current_dir v = ''/'' \<and> fs v = Folder dirs \<and> map_of dirs name = Some File
        \<and> name \<noteq> [] \<and> CHR ''/'' \<notin> set name \<and> name \<noteq> ''..''"
  then show "current_node (v\<lparr>current_dir := ''/'' @ name\<rparr>) = Inr File"
    by (simp add: current_node_def py_strip_slash_name split_sep_plain)
qed

theorem change_dir_accepts_files_witness:
  "list_dir test_vfs = Inr [''dir'', ''file1.txt'']
   \<and> ''file1.txt'' \<in> set [''dir'', ''file1.txt'']
   \<and> fst (change_dir test_vfs ''file1.txt'') = Inr ()
   \<and> current_dir test_vfs = ''/''
   \<and> fs test_vfs = Folder [(''file1.txt'', File), (''dir'', Folder [(''file2.txt'', File)])]
   \<and> map_of [(''file1.txt'', File), (''dir'', Folder [(''file2.txt'', File)])] ''file1.txt''
       = Some File
   \<and> ''file1.txt'' \<noteq> [] \<and> CHR ''/'' \<notin> set ''file1.txt'' \<and> ''file1.txt'' \<noteq> ''..''
   \<and> change_dir test_vfs ''file1.txt'' = (Inr (), test_vfs\<lparr>current_dir := ''/file1.txt''\<rparr>)
   \<and> current_node (test_vfs\<lparr>current_dir := ''/file1.txt''\<rparr>) = Inr File"
proof -
  let ?dirs = "[(''file1.txt'', File), (''dir'', Folder [(''file2.txt'', File)])]"
  have listing: "list_dir test_vfs = Inr [''dir'', ''file1.txt'']"
    by code_simp
  have root: "current_dir test_vfs = ''/''" and tree: "fs test_vfs = Folder ?dirs"
    by (simp_all add: test_vfs_def)
  have leaf: "map_of ?dirs ''file1.txt'' = Some File"
    by simp
  from listing root tree leaf
    change_dir_accepts_files [of test_vfs "[''dir'', ''file1.txt'']" "''file1.txt''" ?dirs]
  show ?thesis
    by simp
qed

text \<open>
  The claim C10 as the spec words it fails in two ways. Below the root, the path after a
  successful \<open>change_dir\<close> to a file names no node at all. With a file whose name is
  \<open>..\<close> in the listing, \<open>change_dir("..")\<close> succeeds and the path names a folder.
\<close>

theorem change_dir_file_counterexample:
  "list_dir (dir1_vfs\<lparr>current_dir := ''/dir1''\<rparr>) = Inr [''file1.txt'']
   \<and> change_dir (dir1_vfs\<lparr>current_dir := ''/dir1''\<rparr>) ''file1.txt''
       = (Inr (), dir1_vfs\<lparr>current_dir := ''/dir1file1.txt''\<rparr>)
   \<and> current_node (dir1_vfs\<lparr>current_dir := ''/dir1file1.txt''\<rparr>)
       = Inl (KeyError ''dir1file1.txt'')
   \<and> list_dir dotdot_vfs = Inr [''..'']
   \<and> change_dir dotdot_vfs ''..'' = (Inr (), dotdot_vfs)
   \<and> current_node dotdot_vfs = Inr (Folder [(''..'', File)])"
  by code_simp

subsection \<open>Names in a loaded tree\<close>

lemma split_sep_parts_plain: "p \<in> set (split_sep sep s) \<Longrightarrow> sep \<notin> set p"
proof (induction s arbitrary: p)
  case Nil
  then show ?case by simp
next
  case (Cons c cs)
  show ?case
  proof (cases "c = sep")
    case True
    with Cons show ?thesis by auto
  next
    case False
    obtain w ws where ws: "split_sep sep cs = w # ws"
      by (cases "split_sep sep cs") (auto dest: arg_cong [where f = length] simp: split_sep_not_Nil)
    with Cons.prems False have "p = c # w \<or> p \<in> set ws"
      by simp
    with Cons.IH [of w] Cons.IH [of p] ws False show ?thesis
      by auto
  qed
qed

lemma py_join_split_sep: "py_join [sep] (split_sep sep s) = s"
proof (induction s)
  case Nil
  show ?case by simp
next
  case (Cons c cs)
  obtain w ws where ws: "split_sep sep cs = w # ws"
    by (cases "split_sep sep cs") (auto simp: split_sep_not_Nil)
  with Cons show ?case
    by (cases ws) auto
qed

text \<open>
  What \<open>change_dir\<close> does with a listed name: the name is appended to the current
  directory as it is.
\<close>

lemma change_dir_listed:
  assumes "list_dir v = Inr listing" and "name \<in> set listing"
    and "name \<noteq> ''..''" and "CHR ''/'' \<notin> set name"
  shows "change_dir v name = (Inr (), v\<lparr>current_dir := current_dir v @ name\<rparr>)"
  using assms by (simp add: change_dir_def py_strip_slash_name)

lemma add_entry_keeps_File: "add_entry ps lst File = Inr d \<Longrightarrow> d = File"
  by (cases ps) (auto split: if_splits)

lemma add_entry_root_names:
  assumes ok: "root_names_ok kvs"
    and plain: "\<forall>p\<in>set ps. CHR ''/'' \<notin> set p" "CHR ''/'' \<notin> set lst"
    and added: "add_entry ps lst (Folder kvs) = Inr (Folder kvs')"
  shows "root_names_ok kvs'"
proof (cases ps)
  case Nil
  with added have "kvs' = kvs \<or> (lst \<noteq> [] \<and> kvs' = AList.update lst File kvs)"
    by (auto split: if_splits)
  with ok plain(2) show ?thesis
    by (auto simp: root_names_ok_def list_all_iff dest!: update_member)
next
  case (Cons part rest)
  let ?child = "case map_of kvs part of None \<Rightarrow> Folder [] | Some child \<Rightarrow> child"
  from added Cons obtain child' where c: "add_entry rest lst ?child = Inr child'"
    and k: "kvs' = AList.update part child' kvs"
    by (auto split: sum.splits)
  have "part \<noteq> []" if "child' = File"
  proof -
    from that c have "?child = File"
      by (cases ?child) (auto dest: add_entry_root)
    then have "map_of kvs part = Some File"
      by (auto split: option.splits)
    then have "(part, File) \<in> set kvs"
      by (rule map_of_SomeD)
    with ok show ?thesis
      by (auto simp: root_names_ok_def list_all_iff)
  qed
  moreover from plain(1) Cons have "CHR ''/'' \<notin> set part"
    by simp
  ultimately show ?thesis
    using ok k by (auto simp: root_names_ok_def list_all_iff dest!: update_member)
qed

lemma load_entries_root_names:
  "load_entries z files v = Inr v' \<Longrightarrow> fs v = Folder kvs \<Longrightarrow> root_names_ok kvs \<Longrightarrow>
   \<exists>kvs'. fs v' = Folder kvs' \<and> root_names_ok kvs'"
proof (induction files arbitrary: v kvs)
  case Nil
  then show ?case by simp
next
  case (Cons f0 files)
  let ?parts = "split_sep CHR ''/'' f0"
  from Cons.prems(1) obtain d v1 where
    d: "add_entry (butlast ?parts) (last ?parts) (fs v) = Inr d"
    and v1: "load_entries z files v1 = Inr v'" "fs v1 = d"
    by (rule load_entries_step)
  from d Cons.prems(2) have d': "add_entry (butlast ?parts) (last ?parts) (Folder kvs) = Inr d"
    by simp
  from add_entry_root [OF d'] obtain kvs1 where k1: "d = Folder kvs1"
    by blast
  have "\<forall>p\<in>set (butlast ?parts). CHR ''/'' \<notin> set p"
    by (auto dest: in_set_butlastD split_sep_parts_plain)
  moreover have "CHR ''/'' \<notin> set (last ?parts)"
    by (rule split_sep_parts_plain [of _ _ f0]) (simp add: split_sep_not_Nil)
  ultimately have "root_names_ok kvs1"
    using Cons.prems(3) d' k1 by (intro add_entry_root_names [of kvs _ _ kvs1]) simp_all
  from Cons.IH [OF v1(1) _ this] v1(2) k1 show ?case
    by simp
qed

text \<open>
  In a file system that \<open>load_zip\<close> has built, a file of the root has a name that is not
  empty and has no slash.
\<close>

lemma loaded_root_file_name:
  assumes "init_vfs z = Inr v" and "fs v = Folder dirs" and "map_of dirs name = Some File"
  shows "name \<noteq> [] \<and> CHR ''/'' \<notin> set name"
proof -
  from assms(1) have "load_entries z (namelist z)
      \<lparr>current_dir = ''/'', fs = Folder [], files_content = []\<rparr> = Inr v"
    by (simp add: init_vfs_def load_zip_def)
  from load_entries_root_names [OF this, of "[]"] assms(2) have "root_names_ok dirs"
    by (simp add: root_names_ok_def)
  moreover from assms(3) have "(name, File) \<in> set dirs"
    by (rule map_of_SomeD)
  ultimately show ?thesis
    by (auto simp: root_names_ok_def list_all_iff)
qed

end
